theory Spec2Isabelle
  imports Main "HOL-Library.Word" "HOL-Library.Monad_Syntax"
begin

unbundle bit_operations_syntax

section \<open>The H.264 decode orchestrator of packages/den/video/H264Decoder.ts\<close>

text \<open>
  The source file carries two variants of the class \<open>H264Decoder\<close>. The later one
  (with \<open>#hasKeyframe\<close>, \<open>#decoding\<close> and \<open>#timestamp\<close>) is the one embedded here; the
  earlier variant has no keyframe gate, no timeout and no internal timestamp.

  The class imports \<open>Bitstream\<close>, \<open>NALUStream\<close>, \<open>NaluType\<close> and \<open>SPS\<close> from the module
  \<open>./h264Utils\<close>, which is not part of the source tree. Every function below takes what
  it uses of that module as the parameter \<open>U\<close>. The decoding engine (the platform's
  \<open>VideoDecoder\<close>) is outside the repository as well and is modelled from its contract.
\<close>

subsection \<open>Data\<close>

text \<open>A \<open>Uint8Array\<close>.\<close>

type_synonym bytes = "8 word list"

text \<open>A \<open>VideoFrame\<close> is an opaque handle handed out by the engine.\<close>

type_synonym VideoFrame = nat

datatype StreamType = packet | annexB | unknown

record NaluStreamInfo =
  stream_type :: StreamType
  boxSize :: nat

record SPS =
  MIME :: string
  picHeight :: nat
  picWidth :: nat

record VideoDecoderConfig =
  codec :: string
  codedHeight :: nat
  codedWidth :: nat
  optimizeForLatency :: bool

datatype ChunkType = key | delta

record EncodedVideoChunk =
  chunk_type :: ChunkType
  chunk_data :: bytes
  chunk_timestamp :: nat

text \<open>
  The parts of \<open>./h264Utils\<close> the class calls:
  \<^item> \<open>NALUStream_strict buffer\<close> is \<open>new NALUStream(buffer, {strict: true})\<close>, read through
    its fields \<open>type\<close> and \<open>boxSize\<close> (either may be undefined); \<open>Inl msg\<close> when the
    constructor throws;
  \<^item> \<open>convertToAnnexB n data\<close> is
    \<open>new NALUStream(data, {type: "packet", boxSize: n}).convertToAnnexB().buf\<close>;
  \<^item> \<open>nalus frame\<close> is what \<open>new NALUStream(frame, {type: "annexB"}).nalus()\<close> yields, an
    entry being \<open>None\<close> where the iterator yields a falsy value;
  \<^item> \<open>nal_unit_type nalu\<close> is \<open>b.seek(3); b.u(5)\<close> on \<open>b = new Bitstream(nalu)\<close>;
  \<^item> \<open>newSPS nalu\<close> is \<open>new SPS(nalu)\<close>, \<open>Inl msg\<close> when it throws.
\<close>

record h264Utils =
  NALUStream_strict :: "bytes \<Rightarrow> string + (StreamType option \<times> nat option)"
  convertToAnnexB :: "nat \<Rightarrow> bytes \<Rightarrow> bytes"
  nalus :: "bytes \<Rightarrow> bytes option list"
  nal_unit_type :: "bytes \<Rightarrow> nat"
  newSPS :: "bytes \<Rightarrow> string + SPS"

text \<open>
  Modelled from the spec: the enumeration \<open>NaluType\<close> of \<open>./h264Utils\<close> is missing; the
  specification gives the IDR type constant as 5 and the SPS type as 7.
\<close>

definition NaluType_IDR :: nat where
  "NaluType_IDR = 5"

definition NaluType_SPS :: nat where
  "NaluType_SPS = 7"

subsection \<open>The decoding engine\<close>

datatype CodecState = unconfigured | configured | closed

text \<open>
  Modelled from the spec: the engine is a platform object. Its contract
  (section 6 of the specification): \<open>configure\<close> makes the state \<open>configured\<close>; \<open>decode\<close>
  takes a chunk and completes out of band; \<open>reset\<close> discards the reference-frame state
  and retains the configuration; \<open>close\<close> releases everything and makes the state
  \<open>closed\<close>. The field \<open>queue\<close> holds the chunks taken since the last reset.
\<close>

record VideoDecoder =
  state :: CodecState
  configuration :: "VideoDecoderConfig option"
  queue :: "EncodedVideoChunk list"

definition new_VideoDecoder :: VideoDecoder where
  "new_VideoDecoder = \<lparr>state = unconfigured, configuration = None, queue = []\<rparr>"

definition VideoDecoder_configure :: "VideoDecoderConfig \<Rightarrow> VideoDecoder \<Rightarrow> VideoDecoder" where
  "VideoDecoder_configure c e = e\<lparr>state := configured, configuration := Some c\<rparr>"

definition VideoDecoder_decode :: "EncodedVideoChunk \<Rightarrow> VideoDecoder \<Rightarrow> VideoDecoder" where
  "VideoDecoder_decode chunk e = e\<lparr>queue := queue e @ [chunk]\<rparr>"

definition VideoDecoder_reset :: "VideoDecoder \<Rightarrow> VideoDecoder" where
  "VideoDecoder_reset e = e\<lparr>queue := []\<rparr>"

definition VideoDecoder_close :: "VideoDecoder \<Rightarrow> VideoDecoder" where
  "VideoDecoder_close e = \<lparr>state = closed, configuration = None, queue = []\<rparr>"

subsection \<open>The object\<close>

text \<open>
  What the class emits on its \<open>debug\<close>, \<open>warn\<close> and \<open>error\<close> channels. A message keeps the
  values its template string prints (byte length, chunk type, caller timestamp, frame).
\<close>

datatype level = debug | warn | error

datatype message =
    StreamIdentified StreamType nat
  | ConfiguringVideoDecoder VideoDecoderConfig
  | SkippingNonKeyframe
  | Decoded nat ChunkType nat VideoFrame
  | DecoderClosedCreatingNew
  | StateSkippingFrame CodecState
  | TimedOutDecoding nat nat
  | UnableToConvert nat
  | UnableToIdentify "string option"
  | UnhandledStreamType StreamType
  | InvalidSPS string
  | FailedToDecode nat nat string
  | EngineReported string

text \<open>
  A pending decode: the promise created at line 332 of the source, which also names its
  timeout and its \<open>once("frame")\<close> listener, with the values the two closures print.
\<close>

record pending_decode =
  promise :: nat
  byteLength :: nat
  ctype :: ChunkType
  time :: nat

text \<open>
  The private fields of the class, the \<open>once("frame")\<close> listeners registered on the
  object (it extends \<open>EventEmitter\<close>) in registration order, and the log of what it
  emitted. \<open>#timestamp\<close> is a JavaScript number that starts at 0 and only grows by one;
  such numbers are exact integers far beyond any number of calls, so it is a \<open>nat\<close>.
\<close>

record H264Decoder =
  decoder :: VideoDecoder
  naluStreamInfo :: "NaluStreamInfo option"
  videoDecoderConfig :: "VideoDecoderConfig option"
  hasKeyframe :: bool
  decoding :: "nat option"
  pendingFrame :: "VideoFrame option"
  timestamp :: nat
  frame_listeners :: "pending_decode list"
  emitted :: "(level \<times> message) list"

definition emit :: "level \<Rightarrow> message \<Rightarrow> H264Decoder \<Rightarrow> H264Decoder" where
  "emit l m st = st\<lparr>emitted := emitted st @ [(l, m)]\<rparr>"

text \<open>The constructor.\<close>

definition constructor :: H264Decoder where
  "constructor =
     \<lparr>decoder = new_VideoDecoder, naluStreamInfo = None, videoDecoderConfig = None,
      hasKeyframe = False, decoding = None, pendingFrame = None, timestamp = 0,
      frame_listeners = [], emitted = []\<rparr>"

subsection \<open>The synchronous methods\<close>

text \<open>\<open>_identifyNaluStreamInfo\<close> (lines 479 to 491).\<close>

definition identifyNaluStreamInfo ::
  "h264Utils \<Rightarrow> bytes \<Rightarrow> H264Decoder \<Rightarrow> NaluStreamInfo option \<times> H264Decoder" where
  "identifyNaluStreamInfo U buffer st =
     (case NALUStream_strict U buffer of
        Inl msg \<Rightarrow> (None, emit error (UnableToIdentify (Some msg)) st)
      | Inr (Some t, Some b) \<Rightarrow>
          (if t \<noteq> unknown then (Some \<lparr>stream_type = t, boxSize = b\<rparr>, st)
           else (None, emit error (UnableToIdentify None) st))
      | Inr _ \<Rightarrow> (None, emit error (UnableToIdentify None) st))"

text \<open>\<open>_getNaluStreamInfo\<close> (lines 428 to 437).\<close>

definition getNaluStreamInfo ::
  "h264Utils \<Rightarrow> bytes \<Rightarrow> H264Decoder \<Rightarrow> NaluStreamInfo option \<times> H264Decoder" where
  "getNaluStreamInfo U data st =
     (case naluStreamInfo st of
        Some info \<Rightarrow> (Some info, st)
      | None \<Rightarrow>
          (case identifyNaluStreamInfo U data st of
             (None, st1) \<Rightarrow> (None, st1\<lparr>naluStreamInfo := None\<rparr>)
           | (Some info, st1) \<Rightarrow>
               (Some info,
                emit debug (StreamIdentified (stream_type info) (boxSize info))
                  (st1\<lparr>naluStreamInfo := Some info\<rparr>))))"

text \<open>\<open>_getAnnexBFrame\<close> (lines 402 to 422).\<close>

definition getAnnexBFrame ::
  "h264Utils \<Rightarrow> bytes \<Rightarrow> H264Decoder \<Rightarrow> bytes option \<times> H264Decoder" where
  "getAnnexBFrame U data st =
     (case getNaluStreamInfo U data st of
        (None, st1) \<Rightarrow> (None, emit error (UnableToIdentify None) st1)
      | (Some streamInfo, st1) \<Rightarrow>
          (case stream_type streamInfo of
             packet \<Rightarrow> (Some (convertToAnnexB U (boxSize streamInfo) data), st1)
           | annexB \<Rightarrow> (Some data, st1)
           | unknown \<Rightarrow> (None, emit error (UnhandledStreamType unknown) st1)))"

text \<open>
  The loop of \<open>_getDecoderConfig\<close> (lines 450 to 476): the first NAL unit of type SPS
  decides, whether it parses or not.
\<close>

fun scanForSPS ::
  "h264Utils \<Rightarrow> bytes option list \<Rightarrow> H264Decoder \<Rightarrow> VideoDecoderConfig option \<times> H264Decoder" where
  "scanForSPS U [] st = (None, st)"
| "scanForSPS U (None # rest) st = scanForSPS U rest st"
| "scanForSPS U (Some nalu # rest) st =
     (if nal_unit_type U nalu = NaluType_SPS then
        (case newSPS U nalu of
           Inr sps \<Rightarrow>
             (let cfg = \<lparr>codec = MIME sps, codedHeight = picHeight sps,
                         codedWidth = picWidth sps, optimizeForLatency = True\<rparr>
              in (Some cfg, st\<lparr>videoDecoderConfig := Some cfg\<rparr>))
         | Inl msg \<Rightarrow> (None, emit error (InvalidSPS msg) st))
      else scanForSPS U rest st)"

text \<open>\<open>_getDecoderConfig\<close> (lines 444 to 477).\<close>

definition getDecoderConfig ::
  "h264Utils \<Rightarrow> bytes \<Rightarrow> H264Decoder \<Rightarrow> VideoDecoderConfig option \<times> H264Decoder" where
  "getDecoderConfig U annexBFrame st =
     (case videoDecoderConfig st of
        Some cfg \<Rightarrow> (Some cfg, st)
      | None \<Rightarrow> scanForSPS U (nalus U annexBFrame) st)"

text \<open>\<open>isKeyFrame\<close> (lines 494 to 510), the loop first.\<close>

fun anyIDR :: "h264Utils \<Rightarrow> bytes option list \<Rightarrow> bool" where
  "anyIDR U [] = False"
| "anyIDR U (None # rest) = anyIDR U rest"
| "anyIDR U (Some nalu # rest) =
     (if nal_unit_type U nalu = NaluType_IDR then True else anyIDR U rest)"

definition isKeyFrame :: "h264Utils \<Rightarrow> bytes \<Rightarrow> bool" where
  "isKeyFrame U annexBFrame = anyIDR U (nalus U annexBFrame)"

text \<open>
  The synchronous part of \<open>decode\<close> after the wait of line 287 and before the promise of
  line 332 (lines 290 to 330). The result is \<open>None\<close> where the source returns
  \<open>undefined\<close>, and the chunk type with the Annex B frame where it goes on to submit.
\<close>

definition decode_prepare ::
  "h264Utils \<Rightarrow> bytes \<Rightarrow> H264Decoder \<Rightarrow> (ChunkType \<times> bytes) option \<times> H264Decoder" where
  "decode_prepare U data st =
     (let st1 = (if state (decoder st) = closed
                 then (emit warn DecoderClosedCreatingNew st)\<lparr>decoder := new_VideoDecoder\<rparr>
                 else st)
      in case getAnnexBFrame U data st1 of
           (None, st2) \<Rightarrow> (None, emit error (UnableToConvert (length data)) st2)
         | (Some annexBFrame, st2) \<Rightarrow>
             (let st3 =
                (if state (decoder st2) = unconfigured then
                   (case getDecoderConfig U annexBFrame st2 of
                      (Some decoderConfig, s) \<Rightarrow>
                        (emit debug (ConfiguringVideoDecoder decoderConfig) s)
                          \<lparr>decoder := VideoDecoder_configure decoderConfig (decoder s)\<rparr>
                    | (None, s) \<Rightarrow> s)
                 else st2)
              in if state (decoder st3) \<noteq> configured
                 then (None, emit warn (StateSkippingFrame (state (decoder st3))) st3)
                 else
                   (let type = (if isKeyFrame U annexBFrame then key else delta)
                    in if \<not> hasKeyframe st3 then
                         (if type = key then (Some (type, annexBFrame), st3\<lparr>hasKeyframe := True\<rparr>)
                          else (None, emit debug SkippingNonKeyframe st3))
                       else (Some (type, annexBFrame), st3))))"

text \<open>\<open>resetForSeek\<close> (lines 385 to 387).\<close>

definition resetForSeek :: "H264Decoder \<Rightarrow> H264Decoder" where
  "resetForSeek st = st\<lparr>decoder := VideoDecoder_reset (decoder st)\<rparr>"

text \<open>\<open>close\<close> (lines 393 to 397).\<close>

definition close :: "H264Decoder \<Rightarrow> H264Decoder" where
  "close st =
     st\<lparr>decoder := VideoDecoder_close (decoder st),
        naluStreamInfo := None,
        videoDecoderConfig := None\<rparr>"

subsection \<open>The asynchronous part of \<open>decode\<close>\<close>

text \<open>
  JavaScript runs the object on one thread: a call runs until it returns or reaches an
  \<open>await\<close>; a continuation whose promise is resolved waits in the microtask queue, which
  is served first in, first out; a timer or an engine callback runs only when that queue
  is empty. The runtime state holds, beside the object: the timeouts set and not yet
  fired or cleared, the promises already resolved, the continuations waiting on
  unresolved promises, the microtask queue, and four histories (what each call returned,
  what was passed to the engine's \<open>decode\<close>, the frames stored in \<open>#pendingFrame\<close> and
  the frames on which \<open>close()\<close> was called).
\<close>

datatype continuation =
    Resume_prepare nat bytes nat
  | Resume_finish nat

record submission =
  sub_call :: nat
  sub_promise :: nat
  sub_chunk :: EncodedVideoChunk
  sub_accepted :: bool

record runtime =
  obj :: H264Decoder
  timers :: "pending_decode list"
  settled :: "nat list"
  awaiting :: "(nat \<times> continuation) list"
  microtasks :: "continuation list"
  next_promise :: nat
  next_call :: nat
  returned :: "(nat \<times> VideoFrame option) list"
  submissions :: "submission list"
  stored_frames :: "VideoFrame list"
  closed_frames :: "VideoFrame list"

definition start :: runtime where
  "start =
     \<lparr>obj = constructor, timers = [], settled = [], awaiting = [], microtasks = [],
      next_promise = 0, next_call = 0, returned = [], submissions = [],
      stored_frames = [], closed_frames = []\<rparr>"

text \<open>\<open>await p\<close> with the rest of the call as continuation \<open>k\<close>.\<close>

definition await :: "nat \<Rightarrow> continuation \<Rightarrow> runtime \<Rightarrow> runtime" where
  "await p k rt =
     (if p \<in> set (settled rt) then rt\<lparr>microtasks := microtasks rt @ [k]\<rparr>
      else rt\<lparr>awaiting := awaiting rt @ [(p, k)]\<rparr>)"

text \<open>The \<open>resolve\<close> function of promise \<open>p\<close>; resolving twice does nothing.\<close>

definition resolve :: "nat \<Rightarrow> runtime \<Rightarrow> runtime" where
  "resolve p rt =
     (if p \<in> set (settled rt) then rt
      else rt\<lparr>settled := settled rt @ [p],
              microtasks := microtasks rt @ map snd (filter (\<lambda>w. fst w = p) (awaiting rt)),
              awaiting := filter (\<lambda>w. fst w \<noteq> p) (awaiting rt)\<rparr>)"

text \<open>
  Lines 332 to 372: the promise with its timeout and its listener, the call of the
  engine's \<open>decode\<close> inside \<open>try\<close>, and the \<open>await\<close>. \<open>thr\<close> is the engine's answer:
  \<open>None\<close> when it takes the chunk, \<open>Some msg\<close> when it throws. The argument
  \<open>this.#timestamp++\<close> is evaluated before the engine is called.
\<close>

definition decode_submit ::
  "string option \<Rightarrow> nat \<Rightarrow> bytes \<Rightarrow> nat \<Rightarrow> ChunkType \<Rightarrow> bytes \<Rightarrow> runtime \<Rightarrow> runtime" where
  "decode_submit thr c data timestampMicros type annexBFrame rt =
     (let st = obj rt;
          p = next_promise rt;
          pd = \<lparr>promise = p, byteLength = length data, ctype = type, time = timestampMicros\<rparr>;
          chunk = \<lparr>chunk_type = type, chunk_data = annexBFrame, chunk_timestamp = timestamp st\<rparr>;
          st1 = st\<lparr>frame_listeners := frame_listeners st @ [pd], timestamp := timestamp st + 1\<rparr>;
          st2 = (case thr of
                   None \<Rightarrow> st1\<lparr>decoder := VideoDecoder_decode chunk (decoder st1)\<rparr>
                 | Some msg \<Rightarrow> emit error (FailedToDecode (length data) timestampMicros msg) st1)
      in await p (Resume_finish c)
           (rt\<lparr>obj := st2\<lparr>decoding := Some p\<rparr>,
               timers := timers rt @ [pd],
               next_promise := p + 1,
               submissions := submissions rt @
                 [\<lparr>sub_call = c, sub_promise = p, sub_chunk = chunk, sub_accepted = (thr = None)\<rparr>]\<rparr>))"

text \<open>Lines 373 to 377: what runs when the wait of line 372 is over.\<close>

definition decode_finish :: "nat \<Rightarrow> runtime \<Rightarrow> runtime" where
  "decode_finish c rt =
     rt\<lparr>obj := (obj rt)\<lparr>decoding := None, pendingFrame := None\<rparr>,
        returned := returned rt @ [(c, pendingFrame (obj rt))]\<rparr>"

text \<open>Lines 290 to 372: \<open>decode\<close> from the closed check on, for the call \<open>c\<close>.\<close>

definition decode_body ::
  "h264Utils \<Rightarrow> string option \<Rightarrow> nat \<Rightarrow> bytes \<Rightarrow> nat \<Rightarrow> runtime \<Rightarrow> runtime" where
  "decode_body U thr c data timestampMicros rt =
     (case decode_prepare U data (obj rt) of
        (None, st) \<Rightarrow> rt\<lparr>obj := st, returned := returned rt @ [(c, None)]\<rparr>
      | (Some (type, annexBFrame), st) \<Rightarrow>
          decode_submit thr c data timestampMicros type annexBFrame (rt\<lparr>obj := st\<rparr>))"

text \<open>A call of \<open>decode\<close> (line 285): it waits when \<open>#decoding\<close> is set, once.\<close>

definition decode :: "h264Utils \<Rightarrow> string option \<Rightarrow> bytes \<Rightarrow> nat \<Rightarrow> runtime \<Rightarrow> runtime" where
  "decode U thr data timestampMicros rt =
     (let c = next_call rt; rt1 = rt\<lparr>next_call := c + 1\<rparr>
      in case decoding (obj rt1) of
           Some p \<Rightarrow> await p (Resume_prepare c data timestampMicros) rt1
         | None \<Rightarrow> decode_body U thr c data timestampMicros rt1)"

text \<open>The \<open>once("frame")\<close> listener of a pending decode (lines 340 to 351).\<close>

definition on_frame :: "VideoFrame \<Rightarrow> pending_decode \<Rightarrow> runtime \<Rightarrow> runtime" where
  "on_frame videoFrame pd rt =
     (let st = emit debug (Decoded (byteLength pd) (ctype pd) (time pd) videoFrame) (obj rt);
          rt1 = rt\<lparr>timers := filter (\<lambda>t. promise t \<noteq> promise pd) (timers rt)\<rparr>;
          rt2 = (case pendingFrame st of
                   Some held \<Rightarrow> rt1\<lparr>closed_frames := closed_frames rt1 @ [held]\<rparr>
                 | None \<Rightarrow> rt1)
      in resolve (promise pd)
           (rt2\<lparr>obj := st\<lparr>pendingFrame := Some videoFrame\<rparr>,
                stored_frames := stored_frames rt2 @ [videoFrame]\<rparr>))"

text \<open>
  The engine's output callback, \<open>this.emit("frame", frame)\<close>: every listener registered
  at that moment runs, in registration order, and is removed.
\<close>

definition emit_frame :: "VideoFrame \<Rightarrow> runtime \<Rightarrow> runtime" where
  "emit_frame videoFrame rt =
     foldl (\<lambda>r pd. on_frame videoFrame pd r)
       (rt\<lparr>obj := (obj rt)\<lparr>frame_listeners := []\<rparr>\<rparr>)
       (frame_listeners (obj rt))"

text \<open>The timeout callback of a pending decode (lines 333 to 339).\<close>

definition on_timeout :: "pending_decode \<Rightarrow> runtime \<Rightarrow> runtime" where
  "on_timeout pd rt =
     resolve (promise pd)
       (rt\<lparr>obj := emit warn (TimedOutDecoding (byteLength pd) (time pd)) (obj rt),
           timers := filter (\<lambda>t. promise t \<noteq> promise pd) (timers rt)\<rparr>)"

text \<open>
  What can happen to the object: a caller calls \<open>decode\<close>, \<open>resetForSeek\<close> or \<open>close\<close>;
  the runtime serves the first microtask; the engine delivers a frame or reports an
  error through the callbacks given to it at lines 269 to 272; a timeout fires; the
  engine reaches the state \<open>closed\<close> on its own (section 7 of the specification).
  The two events that call the engine's \<open>decode\<close> carry the engine's answer. An event
  that cannot happen in a state (a microtask when the queue is empty, an engine callback
  or a timeout while microtasks wait, a timeout that is not set) leaves the state as it
  is.
\<close>

datatype event =
    Decode bytes nat "string option"
  | Microtask "string option"
  | Frame VideoFrame
  | Timeout nat
  | ResetForSeek
  | Close
  | EngineError string
  | EngineClosed

fun step :: "h264Utils \<Rightarrow> event \<Rightarrow> runtime \<Rightarrow> runtime" where
  "step U (Decode data timestampMicros thr) rt = decode U thr data timestampMicros rt"
| "step U (Microtask thr) rt =
     (case microtasks rt of
        [] \<Rightarrow> rt
      | Resume_prepare c data timestampMicros # ks \<Rightarrow>
          decode_body U thr c data timestampMicros (rt\<lparr>microtasks := ks\<rparr>)
      | Resume_finish c # ks \<Rightarrow> decode_finish c (rt\<lparr>microtasks := ks\<rparr>))"
| "step U (Frame videoFrame) rt =
     (if microtasks rt = [] then emit_frame videoFrame rt else rt)"
| "step U (Timeout p) rt =
     (if microtasks rt = [] then
        (case find (\<lambda>t. promise t = p) (timers rt) of
           Some pd \<Rightarrow> on_timeout pd rt
         | None \<Rightarrow> rt)
      else rt)"
| "step U ResetForSeek rt = rt\<lparr>obj := resetForSeek (obj rt)\<rparr>"
| "step U Close rt = rt\<lparr>obj := close (obj rt)\<rparr>"
| "step U (EngineError msg) rt =
     (if microtasks rt = [] then rt\<lparr>obj := emit error (EngineReported msg) (obj rt)\<rparr> else rt)"
| "step U EngineClosed rt =
     rt\<lparr>obj := (obj rt)\<lparr>decoder := VideoDecoder_close (decoder (obj rt))\<rparr>\<rparr>"

definition run :: "h264Utils \<Rightarrow> event list \<Rightarrow> runtime \<Rightarrow> runtime" where
  "run U evs rt = foldl (\<lambda>r e. step U e r) rt evs"

subsection \<open>Notions used in the statements\<close>

text \<open>
  The submissions in flight: the chunks the engine took whose promise is resolved
  neither by a frame nor by a timeout.
\<close>

definition in_flight :: "runtime \<Rightarrow> submission list" where
  "in_flight rt =
     filter (\<lambda>s. sub_accepted s \<and> sub_promise s \<notin> set (settled rt)) (submissions rt)"

text \<open>
  The frames the object holds: those it stored in \<open>#pendingFrame\<close> at some time and has
  neither closed nor returned to a caller since.
\<close>

definition held_frames :: "runtime \<Rightarrow> VideoFrame list" where
  "held_frames rt =
     filter (\<lambda>f. f \<notin> set (closed_frames rt) \<and> Some f \<notin> set (map snd (returned rt)))
       (remdups (stored_frames rt))"

text \<open>The timestamps passed to the engine so far are \<open>0, 1, ...\<close> up to \<open>#timestamp\<close>.\<close>

definition ts_inv :: "runtime \<Rightarrow> bool" where
  "ts_inv rt \<longleftrightarrow>
     map (\<lambda>s. chunk_timestamp (sub_chunk s)) (submissions rt) = [0..<timestamp (obj rt)]"

text \<open>
  Every frame ever stored is in the slot, closed, or returned to a caller.
\<close>

definition frames_inv :: "runtime \<Rightarrow> bool" where
  "frames_inv rt \<longleftrightarrow>
     (\<forall>f \<in> set (stored_frames rt).
        pendingFrame (obj rt) = Some f \<or> f \<in> set (closed_frames rt) \<or>
        Some f \<in> set (map snd (returned rt)))"




subsection \<open>An instance of the missing module\<close>

text \<open>
  The theorems below hold for every \<open>U\<close>. To run the model on concrete byte sequences an
  instance is needed; this one follows the specification of the bit reader, of the
  Annex B iterator and of the SPS parser, and is restricted where the specification is
  silent or the input is not used in the examples: it recognises start-code delimited
  input only, reads the picture order count types 0 and 2 only, and ignores
  emulation-prevention bytes.
\<close>

text \<open>
  Modelled from the spec: the Annex B iterator splits on the start codes \<open>00 00 01\<close> and
  \<open>00 00 00 01\<close>, strips them and skips ranges of length zero.
\<close>

function splitStartCodes :: "bytes \<Rightarrow> bytes \<Rightarrow> bytes list" where
  "splitStartCodes cur [] = [cur]"
| "splitStartCodes cur (b # rest) =
     (if b = 0 \<and> take 3 rest = [0, 0, 1] then cur # splitStartCodes [] (drop 3 rest)
      else if b = 0 \<and> take 2 rest = [0, 1] then cur # splitStartCodes [] (drop 2 rest)
      else splitStartCodes (cur @ [b]) rest)"
  by pat_completeness auto
termination
  by (relation "measure (\<lambda>(cur, rest). length rest)") auto

definition example_nalus :: "bytes \<Rightarrow> bytes option list" where
  "example_nalus frame = map Some (filter (\<lambda>n. n \<noteq> []) (splitStartCodes [] frame))"

text \<open>
  Modelled from the spec: the bit reader reads most significant bit first;
  \<open>readUnsigned n\<close> fails when fewer than \<open>n\<close> bits remain; \<open>readExpGolomb\<close> counts \<open>k\<close>
  leading zero bits up to a one, reads \<open>k\<close> more bits and returns \<open>2^k - 1 + suffix\<close>.
\<close>

definition bitsOf :: "bytes \<Rightarrow> bool list" where
  "bitsOf bs = concat (map (\<lambda>b. map (bit b) [7, 6, 5, 4, 3, 2, 1, 0]) bs)"

definition natOfBits :: "bool list \<Rightarrow> nat" where
  "natOfBits bits = foldl (\<lambda>a b. 2 * a + (if b then 1 else 0)) 0 bits"

definition readUnsigned :: "nat \<Rightarrow> bool list \<Rightarrow> (nat \<times> bool list) option" where
  "readUnsigned n bits =
     (if length bits < n then None else Some (natOfBits (take n bits), drop n bits))"

definition readExpGolomb :: "bool list \<Rightarrow> (nat \<times> bool list) option" where
  "readExpGolomb bits =
     (let k = length (takeWhile Not bits)
      in if length bits \<le> k then None
         else (case readUnsigned k (drop (k + 1) bits) of
                 None \<Rightarrow> None
               | Some (suffix, rest) \<Rightarrow> Some (2 ^ k - 1 + suffix, rest)))"

text \<open>\<open>seek(3)\<close>, then \<open>u(5)\<close>; 0 stands for a unit too short to have a header.\<close>

definition example_nal_unit_type :: "bytes \<Rightarrow> nat" where
  "example_nal_unit_type nalu =
     (case readUnsigned 5 (drop 3 (bitsOf nalu)) of Some (t, rest) \<Rightarrow> t | None \<Rightarrow> 0)"

text \<open>
  Modelled from the spec: the SPS parser reads, after the one-byte NAL header, the fields
  the specification lists in its order, and fails when the unit is too short or carries
  a scaling matrix. The codec identifier is the prefix \<open>avc1.\<close> and the three header
  bytes in hexadecimal.
\<close>

definition highProfiles :: "nat list" where
  "highProfiles = [100, 110, 122, 244, 44, 83, 86, 118, 128, 138, 139, 134, 135]"

definition hex2 :: "nat \<Rightarrow> string" where
  "hex2 n = [''0123456789abcdef'' ! (n div 16 mod 16), ''0123456789abcdef'' ! (n mod 16)]"

definition readChroma :: "nat \<Rightarrow> bool list \<Rightarrow> bool list option" where
  "readChroma profile_idc bits =
     (if profile_idc \<in> set highProfiles then
        do {
          (chroma_format_idc, b1) \<leftarrow> readExpGolomb bits;
          (separate_colour_plane_flag, b2) \<leftarrow>
            (if chroma_format_idc = 3 then readUnsigned 1 b1 else Some (0, b1));
          (bit_depth_luma_minus8, b3) \<leftarrow> readExpGolomb b2;
          (bit_depth_chroma_minus8, b4) \<leftarrow> readExpGolomb b3;
          (qpprime_y_zero_transform_bypass_flag, b5) \<leftarrow> readUnsigned 1 b4;
          (seq_scaling_matrix_present_flag, b6) \<leftarrow> readUnsigned 1 b5;
          (if seq_scaling_matrix_present_flag = 1 then None else Some b6)
        }
      else Some bits)"

definition readPicOrderCnt :: "bool list \<Rightarrow> bool list option" where
  "readPicOrderCnt bits =
     do {
       (pic_order_cnt_type, b1) \<leftarrow> readExpGolomb bits;
       (if pic_order_cnt_type = 0 then map_option snd (readExpGolomb b1)
        else if pic_order_cnt_type = 2 then Some b1
        else None)
     }"

definition readCrop :: "bool list \<Rightarrow> (nat \<times> nat) option" where
  "readCrop bits =
     do {
       (frame_cropping_flag, b1) \<leftarrow> readUnsigned 1 bits;
       (if frame_cropping_flag = 1 then
          do {
            (left, b2) \<leftarrow> readExpGolomb b1;
            (right, b3) \<leftarrow> readExpGolomb b2;
            (top, b4) \<leftarrow> readExpGolomb b3;
            (bottom, b5) \<leftarrow> readExpGolomb b4;
            Some (left + right, top + bottom)
          }
        else Some (0, 0))
     }"

definition parseSPS :: "bytes \<Rightarrow> SPS option" where
  "parseSPS nalu =
     do {
       (profile_idc, b1) \<leftarrow> readUnsigned 8 (drop 8 (bitsOf nalu));
       (constraint_flags, b2) \<leftarrow> readUnsigned 8 b1;
       (level_idc, b3) \<leftarrow> readUnsigned 8 b2;
       (seq_parameter_set_id, b4) \<leftarrow> readExpGolomb b3;
       b5 \<leftarrow> readChroma profile_idc b4;
       (log2_max_frame_num_minus4, b6) \<leftarrow> readExpGolomb b5;
       b7 \<leftarrow> readPicOrderCnt b6;
       (max_num_ref_frames, b8) \<leftarrow> readExpGolomb b7;
       (gaps_in_frame_num_value_allowed_flag, b9) \<leftarrow> readUnsigned 1 b8;
       (pic_width_in_mbs_minus1, b10) \<leftarrow> readExpGolomb b9;
       (pic_height_in_map_units_minus1, b11) \<leftarrow> readExpGolomb b10;
       (frame_mbs_only_flag, b12) \<leftarrow> readUnsigned 1 b11;
       (mb_adaptive_frame_field_flag, b13) \<leftarrow>
         (if frame_mbs_only_flag = 0 then readUnsigned 1 b12 else Some (0, b12));
       (direct_8x8_inference_flag, b14) \<leftarrow> readUnsigned 1 b13;
       (cropX, cropY) \<leftarrow> readCrop b14;
       Some \<lparr>MIME = ''avc1.'' @ hex2 profile_idc @ hex2 constraint_flags @ hex2 level_idc,
             picHeight = (2 - frame_mbs_only_flag) * (pic_height_in_map_units_minus1 + 1) * 16
                           - cropY * 2 * (2 - frame_mbs_only_flag),
             picWidth = (pic_width_in_mbs_minus1 + 1) * 16 - cropX * 2\<rparr>
     }"

text \<open>
  Modelled from the spec: the conversion of length-prefixed input rewrites each length
  prefix (big-endian, \<open>n\<close> bytes) as the start code \<open>00 00 00 01\<close> and keeps the payloads
  and their order.
\<close>

function example_convertToAnnexB :: "nat \<Rightarrow> bytes \<Rightarrow> bytes" where
  "example_convertToAnnexB n data =
     (if n = 0 \<or> length data < n then []
      else (let len = foldl (\<lambda>a b. 256 * a + unat b) 0 (take n data)
            in [0, 0, 0, 1] @ take len (drop n data) @
               example_convertToAnnexB n (drop (n + len) data)))"
  by pat_completeness auto
termination
  by (relation "measure (\<lambda>(n, data). length data)") auto

definition exampleUtils :: h264Utils where
  "exampleUtils =
     \<lparr>NALUStream_strict = (\<lambda>buffer.
          if take 4 buffer = [0, 0, 0, 1] then Inr (Some annexB, Some 4)
          else if take 3 buffer = [0, 0, 1] then Inr (Some annexB, Some 3)
          else Inr (Some unknown, None)),
      convertToAnnexB = example_convertToAnnexB,
      nalus = example_nalus,
      nal_unit_type = example_nal_unit_type,
      newSPS = (\<lambda>nalu. case parseSPS nalu of
                          Some sps \<Rightarrow> Inr sps
                        | None \<Rightarrow> Inl ''cannot parse SPS'')\<rparr>"

text \<open>
  Example NAL units: a baseline-profile SPS (profile 66, level 30, 20 by 15 macroblocks,
  that is 320 by 240), an SPS cut after its profile byte, an IDR slice and a non-IDR
  slice. The chunks put the four-byte start code in front of each unit.
\<close>

definition spsNalu :: bytes where
  "spsNalu = [0x67, 0x42, 0x00, 0x1E, 0xDA, 0x05, 0x07, 0xE4]"

definition cutSpsNalu :: bytes where
  "cutSpsNalu = [0x67, 0x42]"

definition idrNalu :: bytes where
  "idrNalu = [0x65, 0x88, 0x84]"

definition sliceNalu :: bytes where
  "sliceNalu = [0x41, 0x9A, 0x24]"

definition annexBChunk :: "bytes list \<Rightarrow> bytes" where
  "annexBChunk units = concat (map (\<lambda>n. [0, 0, 0, 1] @ n) units)"

definition keyChunk :: bytes where
  "keyChunk = annexBChunk [spsNalu, idrNalu]"

definition deltaChunk :: bytes where
  "deltaChunk = annexBChunk [sliceNalu]"

definition spsChunk :: bytes where
  "spsChunk = annexBChunk [spsNalu, sliceNalu]"

text \<open>
  Example states: the object after a chunk with an SPS and no IDR slice (configured, no
  keyframe seen yet), and the object after a key chunk whose decode timed out and whose
  frame 11 arrived late.
\<close>

definition configuredRuntime :: runtime where
  "configuredRuntime = run exampleUtils [Decode spsChunk 0 None] start"

definition lateFrameRuntime :: runtime where
  "lateFrameRuntime =
     run exampleUtils [Decode keyChunk 0 None, Timeout 0, Microtask None, Frame 11] start"

text \<open>
  A slow engine: three calls of \<open>decode\<close>, each of which times out; the frame of the first
  chunk (frame 10) arrives while the second call's listener is the last one registered,
  and the frames of the second and third chunk (11 and 12) arrive after the third call
  has returned.
\<close>

definition slowEngine :: "event list" where
  "slowEngine =
     [Decode keyChunk 0 None, Timeout 0, Microtask None,
      Decode deltaChunk 1 None, Timeout 1, Microtask None,
      Frame 10,
      Decode deltaChunk 2 None, Timeout 2, Microtask None]"



section \<open>Properties\<close>

subsection \<open>What the synchronous part leaves alone\<close>

lemma anyIDR_iff:
  "anyIDR U ns \<longleftrightarrow> (\<exists>nalu. Some nalu \<in> set ns \<and> nal_unit_type U nalu = NaluType_IDR)"
  by (induction U ns rule: anyIDR.induct) auto

lemma scanForSPS_fields:
  "scanForSPS U ns st = (r, st') \<Longrightarrow>
     decoder st' = decoder st \<and> naluStreamInfo st' = naluStreamInfo st \<and>
     hasKeyframe st' = hasKeyframe st \<and> decoding st' = decoding st \<and>
     pendingFrame st' = pendingFrame st \<and> timestamp st' = timestamp st \<and>
     frame_listeners st' = frame_listeners st"
  by (induction U ns st rule: scanForSPS.induct)
     (auto simp: emit_def Let_def split: if_splits sum.splits)

lemma getDecoderConfig_fields:
  "getDecoderConfig U frame st = (r, st') \<Longrightarrow>
     decoder st' = decoder st \<and> naluStreamInfo st' = naluStreamInfo st \<and>
     hasKeyframe st' = hasKeyframe st \<and> decoding st' = decoding st \<and>
     pendingFrame st' = pendingFrame st \<and> timestamp st' = timestamp st \<and>
     frame_listeners st' = frame_listeners st"
  using scanForSPS_fields [of U "nalus U frame" st r st']
  by (auto simp: getDecoderConfig_def split: option.splits)

lemma getAnnexBFrame_fields:
  "getAnnexBFrame U data st = (r, st') \<Longrightarrow>
     decoder st' = decoder st \<and> videoDecoderConfig st' = videoDecoderConfig st \<and>
     hasKeyframe st' = hasKeyframe st \<and> decoding st' = decoding st \<and>
     pendingFrame st' = pendingFrame st \<and> timestamp st' = timestamp st \<and>
     frame_listeners st' = frame_listeners st"
  by (auto simp: getAnnexBFrame_def getNaluStreamInfo_def identifyNaluStreamInfo_def emit_def
           split: option.splits sum.splits prod.splits StreamType.splits if_splits)

lemma getAnnexBFrame_result:
  "naluStreamInfo st1 = naluStreamInfo st \<Longrightarrow>
     fst (getAnnexBFrame U data st1) = fst (getAnnexBFrame U data st)"
  by (auto simp: getAnnexBFrame_def getNaluStreamInfo_def identifyNaluStreamInfo_def emit_def
           split: option.splits sum.splits prod.splits StreamType.splits if_splits)

lemma decode_prepare_fields:
  assumes "decode_prepare U data st = (r, st')"
  shows "decoding st' = decoding st \<and> pendingFrame st' = pendingFrame st \<and>
         timestamp st' = timestamp st \<and> frame_listeners st' = frame_listeners st"
proof -
  define st1 where "st1 = (if state (decoder st) = closed
                 then (emit warn DecoderClosedCreatingNew st)\<lparr>decoder := new_VideoDecoder\<rparr>
                 else st)"
  have s1: "decoding st1 = decoding st \<and> pendingFrame st1 = pendingFrame st \<and>
         timestamp st1 = timestamp st \<and> frame_listeners st1 = frame_listeners st"
    by (simp add: st1_def emit_def)
  obtain a st2 where a: "getAnnexBFrame U data st1 = (a, st2)" by (cases "getAnnexBFrame U data st1")
  note f2 = getAnnexBFrame_fields [OF a]
  show ?thesis
  proof (cases a)
    case None
    with assms a s1 f2 show ?thesis
      by (auto simp: decode_prepare_def st1_def [symmetric] emit_def)
  next
    case (Some frame)
    obtain c s where c: "getDecoderConfig U frame st2 = (c, s)" by (cases "getDecoderConfig U frame st2")
    note f3 = getDecoderConfig_fields [OF c]
    from assms a s1 f2 f3 c Some show ?thesis
      by (auto simp: decode_prepare_def st1_def [symmetric] emit_def Let_def
               split: if_splits option.splits)
  qed
qed

lemma prepare_gate:
  assumes "\<not> hasKeyframe st" and "decode_prepare U data st = (r, st')"
  shows "case r of
           None \<Rightarrow> \<not> hasKeyframe st'
         | Some (t, frame) \<Rightarrow>
             hasKeyframe st' \<and> t = key \<and> isKeyFrame U frame \<and>
             fst (getAnnexBFrame U data st) = Some frame"
proof -
  define st1 where "st1 = (if state (decoder st) = closed
                 then (emit warn DecoderClosedCreatingNew st)\<lparr>decoder := new_VideoDecoder\<rparr>
                 else st)"
  have s1: "hasKeyframe st1 = hasKeyframe st" "naluStreamInfo st1 = naluStreamInfo st"
    by (simp_all add: st1_def emit_def)
  obtain a st2 where a: "getAnnexBFrame U data st1 = (a, st2)" by (cases "getAnnexBFrame U data st1")
  note f2 = getAnnexBFrame_fields [OF a]
  have res: "fst (getAnnexBFrame U data st) = a"
    using getAnnexBFrame_result [OF s1(2), of U data] a by simp
  show ?thesis
  proof (cases a)
    case None
    with assms a s1 f2 show ?thesis
      by (auto simp: decode_prepare_def st1_def [symmetric] emit_def)
  next
    case (Some frame)
    obtain c s where c: "getDecoderConfig U frame st2 = (c, s)" by (cases "getDecoderConfig U frame st2")
    note f3 = getDecoderConfig_fields [OF c]
    from assms a s1 f2 f3 c Some res show ?thesis
      by (auto simp: decode_prepare_def st1_def [symmetric] emit_def Let_def
               split: if_splits option.splits)
  qed
qed

lemma prepare_configured:
  assumes "state (decoder st) = configured"
      and "naluStreamInfo st = Some \<lparr>stream_type = annexB, boxSize = n\<rparr>"
  shows "decode_prepare U data st =
           (if hasKeyframe st then (Some (if isKeyFrame U data then key else delta, data), st)
            else if isKeyFrame U data then (Some (key, data), st\<lparr>hasKeyframe := True\<rparr>)
            else (None, emit debug SkippingNonKeyframe st))"
  using assms
  by (simp add: decode_prepare_def getAnnexBFrame_def getNaluStreamInfo_def Let_def)

subsection \<open>The runtime\<close>

lemma await_fields [simp]:
  "obj (await p k rt) = obj rt" "returned (await p k rt) = returned rt"
  "submissions (await p k rt) = submissions rt" "stored_frames (await p k rt) = stored_frames rt"
  "closed_frames (await p k rt) = closed_frames rt" "timers (await p k rt) = timers rt"
  "next_call (await p k rt) = next_call rt" "next_promise (await p k rt) = next_promise rt"
  "settled (await p k rt) = settled rt"
  by (simp_all add: await_def)

lemma resolve_fields [simp]:
  "obj (resolve p rt) = obj rt" "returned (resolve p rt) = returned rt"
  "submissions (resolve p rt) = submissions rt" "stored_frames (resolve p rt) = stored_frames rt"
  "closed_frames (resolve p rt) = closed_frames rt" "timers (resolve p rt) = timers rt"
  "next_call (resolve p rt) = next_call rt" "next_promise (resolve p rt) = next_promise rt"
  by (simp_all add: resolve_def)

lemma on_frame_fields [simp]:
  "timestamp (obj (on_frame f pd rt)) = timestamp (obj rt)"
  "submissions (on_frame f pd rt) = submissions rt"
  "returned (on_frame f pd rt) = returned rt"
  "decoder (obj (on_frame f pd rt)) = decoder (obj rt)"
  "frame_listeners (obj (on_frame f pd rt)) = frame_listeners (obj rt)"
  by (simp_all add: on_frame_def Let_def emit_def split: option.splits)

lemma foldl_on_frame_fields [simp]:
  "timestamp (obj (foldl (\<lambda>r pd. on_frame f pd r) rt ls)) = timestamp (obj rt)"
  "submissions (foldl (\<lambda>r pd. on_frame f pd r) rt ls) = submissions rt"
  "returned (foldl (\<lambda>r pd. on_frame f pd r) rt ls) = returned rt"
  "decoder (obj (foldl (\<lambda>r pd. on_frame f pd r) rt ls)) = decoder (obj rt)"
  "frame_listeners (obj (foldl (\<lambda>r pd. on_frame f pd r) rt ls)) = frame_listeners (obj rt)"
  by (induction ls arbitrary: rt; simp)+

subsection \<open>Internal timestamps\<close>

lemma ts_inv_body:
  assumes "ts_inv rt"
  shows "ts_inv (decode_body U thr c data t rt)"
proof -
  obtain r st where p: "decode_prepare U data (obj rt) = (r, st)"
    by (cases "decode_prepare U data (obj rt)")
  from decode_prepare_fields [OF p] have t: "timestamp st = timestamp (obj rt)" by simp
  show ?thesis
  proof (cases r)
    case None
    with p t assms show ?thesis by (simp add: decode_body_def ts_inv_def)
  next
    case (Some a)
    obtain ty frame where a: "a = (ty, frame)" by (cases a)
    with Some p t assms show ?thesis
      by (simp add: decode_body_def decode_submit_def ts_inv_def Let_def emit_def
              split: option.splits)
  qed
qed

lemma ts_inv_step:
  assumes "ts_inv rt"
  shows "ts_inv (step U e rt)"
proof (cases e)
  case (Decode data t thr)
  have "ts_inv (rt\<lparr>next_call := next_call rt + 1\<rparr>)" using assms by (simp add: ts_inv_def)
  from ts_inv_body [OF this] assms Decode show ?thesis
    by (simp add: decode_def Let_def ts_inv_def split: option.splits)
next
  case (Microtask thr)
  show ?thesis
  proof (cases "microtasks rt")
    case Nil
    with Microtask assms show ?thesis by simp
  next
    case (Cons k ks)
    have i: "ts_inv (rt\<lparr>microtasks := ks\<rparr>)" using assms by (simp add: ts_inv_def)
    show ?thesis
    proof (cases k)
      case (Resume_prepare c data t)
      with Microtask Cons ts_inv_body [OF i] show ?thesis by simp
    next
      case (Resume_finish c)
      with Microtask Cons assms show ?thesis by (simp add: decode_finish_def ts_inv_def)
    qed
  qed
next
  case (Frame f)
  with assms show ?thesis by (simp add: emit_frame_def ts_inv_def)
next
  case (Timeout p)
  with assms show ?thesis
    by (simp add: on_timeout_def ts_inv_def emit_def split: option.splits)
next
  case ResetForSeek
  with assms show ?thesis by (simp add: resetForSeek_def ts_inv_def)
next
  case Close
  with assms show ?thesis by (simp add: close_def ts_inv_def)
next
  case (EngineError msg)
  with assms show ?thesis by (simp add: ts_inv_def emit_def)
next
  case EngineClosed
  with assms show ?thesis by (simp add: ts_inv_def)
qed

lemma ts_inv_run: "ts_inv rt \<Longrightarrow> ts_inv (run U evs rt)"
  unfolding run_def by (induction evs arbitrary: rt) (simp_all add: ts_inv_step)

lemma ts_inv_start: "ts_inv start"
  by (simp add: ts_inv_def start_def constructor_def)

text \<open>
  Claim C9. Across every sequence of events on one object, the timestamps of the chunks
  passed to the engine are \<open>0, 1, 2, ...\<close> in the order of submission: strictly
  increasing, and fixed by the position of the submission alone, whatever timestamps the
  callers supplied.
\<close>

theorem internal_timestamps:
  "map (\<lambda>s. chunk_timestamp (sub_chunk s)) (submissions (run U evs start)) =
     [0..<length (submissions (run U evs start))] \<and>
   sorted_wrt (<) (map (\<lambda>s. chunk_timestamp (sub_chunk s)) (submissions (run U evs start)))"
proof -
  have i: "map (\<lambda>s. chunk_timestamp (sub_chunk s)) (submissions (run U evs start)) =
        [0..<timestamp (obj (run U evs start))]"
    using ts_inv_run [OF ts_inv_start, of U evs] by (simp add: ts_inv_def)
  then have "length (submissions (run U evs start)) = timestamp (obj (run U evs start))"
    by (metis length_map length_upt minus_nat.diff_0)
  with i show ?thesis by (simp add: sorted_wrt_upt)
qed

text \<open>
  Two calls with caller timestamps 1000 and 5: the chunks reach the engine with the
  timestamps 0 and 1.
\<close>

theorem internal_timestamps_witness:
  "map (\<lambda>s. chunk_timestamp (sub_chunk s))
     (submissions (run exampleUtils
        [Decode keyChunk 1000 None, Frame 11, Microtask None, Decode deltaChunk 5 None] start)) =
     [0, 1]"
proof -
  have "length (submissions (run exampleUtils
        [Decode keyChunk 1000 None, Frame 11, Microtask None, Decode deltaChunk 5 None] start)) = 2"
    by code_simp
  with internal_timestamps [of exampleUtils
        "[Decode keyChunk 1000 None, Frame 11, Microtask None, Decode deltaChunk 5 None]"]
  show ?thesis by (simp add: upt_rec)
qed

subsection \<open>The pending frame\<close>

lemma decode_body_frames:
  "pendingFrame (obj (decode_body U thr c data t rt)) = pendingFrame (obj rt) \<and>
   stored_frames (decode_body U thr c data t rt) = stored_frames rt \<and>
   closed_frames (decode_body U thr c data t rt) = closed_frames rt \<and>
   (returned (decode_body U thr c data t rt) = returned rt \<or>
    returned (decode_body U thr c data t rt) = returned rt @ [(c, None)])"
proof -
  obtain r st where p: "decode_prepare U data (obj rt) = (r, st)"
    by (cases "decode_prepare U data (obj rt)")
  from decode_prepare_fields [OF p] have t: "pendingFrame st = pendingFrame (obj rt)" by simp
  show ?thesis
  proof (cases r)
    case None
    with p t show ?thesis by (simp add: decode_body_def)
  next
    case (Some a)
    obtain ty frame where a: "a = (ty, frame)" by (cases a)
    with Some p t show ?thesis
      by (simp add: decode_body_def decode_submit_def Let_def emit_def split: option.splits)
  qed
qed

lemma frames_inv_body:
  assumes "frames_inv rt"
  shows "frames_inv (decode_body U thr c data t rt)"
  using assms decode_body_frames [of U thr c data t rt]
  by (auto simp: frames_inv_def)

lemma frames_inv_on_frame:
  assumes "frames_inv rt"
  shows "frames_inv (on_frame f pd rt)"
  using assms
  by (auto simp: frames_inv_def on_frame_def Let_def emit_def split: option.splits)

lemma frames_inv_foldl:
  "frames_inv rt \<Longrightarrow> frames_inv (foldl (\<lambda>r pd. on_frame f pd r) rt ls)"
  by (induction ls arbitrary: rt) (simp_all add: frames_inv_on_frame)

lemma frames_inv_step:
  assumes "frames_inv rt"
  shows "frames_inv (step U e rt)"
proof (cases e)
  case (Decode data t thr)
  have "frames_inv (rt\<lparr>next_call := next_call rt + 1\<rparr>)" using assms by (simp add: frames_inv_def)
  from frames_inv_body [OF this] assms Decode show ?thesis
    by (simp add: decode_def Let_def frames_inv_def split: option.splits)
next
  case (Microtask thr)
  show ?thesis
  proof (cases "microtasks rt")
    case Nil
    with Microtask assms show ?thesis by simp
  next
    case (Cons k ks)
    have i: "frames_inv (rt\<lparr>microtasks := ks\<rparr>)" using assms by (simp add: frames_inv_def)
    show ?thesis
    proof (cases k)
      case (Resume_prepare c data t)
      with Microtask Cons frames_inv_body [OF i] show ?thesis by simp
    next
      case (Resume_finish c)
      with Microtask Cons assms show ?thesis
        by (auto simp: decode_finish_def frames_inv_def)
    qed
  qed
next
  case (Frame f)
  have "frames_inv (rt\<lparr>obj := (obj rt)\<lparr>frame_listeners := []\<rparr>\<rparr>)"
    using assms by (simp add: frames_inv_def)
  from frames_inv_foldl [OF this] Frame assms show ?thesis by (simp add: emit_frame_def)
next
  case (Timeout p)
  with assms show ?thesis
    by (simp add: on_timeout_def frames_inv_def emit_def split: option.splits)
next
  case ResetForSeek
  with assms show ?thesis by (simp add: resetForSeek_def frames_inv_def)
next
  case Close
  with assms show ?thesis by (simp add: close_def frames_inv_def)
next
  case (EngineError msg)
  with assms show ?thesis by (simp add: frames_inv_def emit_def)
next
  case EngineClosed
  with assms show ?thesis by (simp add: frames_inv_def)
qed

lemma frames_inv_run: "frames_inv rt \<Longrightarrow> frames_inv (run U evs rt)"
  unfolding run_def by (induction evs arbitrary: rt) (simp_all add: frames_inv_step)

lemma frames_inv_start: "frames_inv start"
  by (simp add: frames_inv_def start_def constructor_def)

lemma held_frames_slot:
  assumes "frames_inv rt"
  shows "set (held_frames rt) \<subseteq> set_option (pendingFrame (obj rt)) \<and> length (held_frames rt) \<le> 1"
proof -
  have sub: "set (held_frames rt) \<subseteq> set_option (pendingFrame (obj rt))"
    using assms by (auto simp: frames_inv_def held_frames_def)
  have d: "distinct (held_frames rt)" by (simp add: held_frames_def)
  have "card (set (held_frames rt)) \<le> card (set_option (pendingFrame (obj rt)))"
    by (rule card_mono [OF _ sub]) simp
  also have "\<dots> \<le> 1" by (cases "pendingFrame (obj rt)") simp_all
  finally have "length (held_frames rt) \<le> 1" using distinct_card [OF d] by simp
  with sub show ?thesis by simp
qed

lemma on_frame_slot:
  "pendingFrame (obj (on_frame f pd rt)) = Some f \<and>
   closed_frames (on_frame f pd rt) =
     closed_frames rt @ (case pendingFrame (obj rt) of Some held \<Rightarrow> [held] | None \<Rightarrow> [])"
  by (simp add: on_frame_def Let_def emit_def split: option.splits)




lemma foldl_on_frame_exact:
  "pendingFrame (obj rt) = Some f \<Longrightarrow>
     pendingFrame (obj (foldl (\<lambda>r pd. on_frame f pd r) rt ls)) = Some f \<and>
     closed_frames (foldl (\<lambda>r pd. on_frame f pd r) rt ls) =
       closed_frames rt @ replicate (length ls) f"
proof (induction ls arbitrary: rt)
  case Nil
  then show ?case by simp
next
  case (Cons pd ls)
  have s: "pendingFrame (obj (on_frame f pd rt)) = Some f"
    "closed_frames (on_frame f pd rt) = closed_frames rt @ [f]"
    using on_frame_slot [of f pd rt] Cons.prems by simp_all
  from Cons.IH [OF s(1)] s(2) show ?case by (simp add: replicate_app_Cons_same)
qed

lemma emit_frame_exact:
  assumes "frame_listeners (obj rt) = pd # ls"
  shows "pendingFrame (obj (emit_frame f rt)) = Some f \<and>
         closed_frames (emit_frame f rt) =
           closed_frames rt @
             (case pendingFrame (obj rt) of Some held \<Rightarrow> [held] | None \<Rightarrow> []) @
             replicate (length ls) f"
proof -
  let ?rt0 = "rt\<lparr>obj := (obj rt)\<lparr>frame_listeners := []\<rparr>\<rparr>"
  have e: "emit_frame f rt = foldl (\<lambda>r pd. on_frame f pd r) (on_frame f pd ?rt0) ls"
    using assms by (simp add: emit_frame_def)
  have s: "pendingFrame (obj (on_frame f pd ?rt0)) = Some f"
    "closed_frames (on_frame f pd ?rt0) =
       closed_frames rt @ (case pendingFrame (obj rt) of Some held \<Rightarrow> [held] | None \<Rightarrow> [])"
    using on_frame_slot [of f pd ?rt0] by simp_all
  from foldl_on_frame_exact [OF s(1), of ls] s(2) show ?thesis unfolding e by simp
qed

text \<open>
  Claim C4, as stated, fails. With the slow engine, frame 11 arrives after the third call
  has returned and is stored by that call's listener; it is held and unclaimed, and no
  listener is registered any more. Frame 12 arrives next: frame 11 is not closed and frame
  12 is not stored in its place.
\<close>

theorem frame_without_listener_is_dropped:
  "pendingFrame (obj (run exampleUtils (slowEngine @ [Frame 11]) start)) = Some 11 \<and>
   held_frames (run exampleUtils (slowEngine @ [Frame 11]) start) = [11] \<and>
   frame_listeners (obj (run exampleUtils (slowEngine @ [Frame 11]) start)) = [] \<and>
   microtasks (run exampleUtils (slowEngine @ [Frame 11]) start) = [] \<and>
   pendingFrame (obj (run exampleUtils (slowEngine @ [Frame 11, Frame 12]) start)) = Some 11 \<and>
   closed_frames (run exampleUtils (slowEngine @ [Frame 11, Frame 12]) start) = [10] \<and>
   stored_frames (run exampleUtils (slowEngine @ [Frame 11, Frame 12]) start) = [10, 10, 11]"
  by code_simp

text \<open>
  Claim C4, amended. In every reachable state the object holds at most one frame: a frame
  it once stored and has neither closed nor returned is the one in \<open>#pendingFrame\<close>. When
  the engine delivers a frame while a listener of a pending decode is registered, the
  frame held at that moment is closed first and the new frame is stored in its place. The
  list of closed frames is given in full: nothing else is closed, except that every
  further listener registered at that moment finds the new frame in the slot, closes it
  and stores it again.
\<close>

theorem held_frame_closed_when_replaced:
  "set (held_frames (run U evs start)) \<subseteq> set_option (pendingFrame (obj (run U evs start))) \<and>
   length (held_frames (run U evs start)) \<le> 1 \<and>
   (microtasks rt = [] \<and> frame_listeners (obj rt) = pd # ls \<longrightarrow>
      pendingFrame (obj (step U (Frame f) rt)) = Some f \<and>
      closed_frames (step U (Frame f) rt) =
        closed_frames rt @
          (case pendingFrame (obj rt) of Some held \<Rightarrow> [held] | None \<Rightarrow> []) @
          replicate (length ls) f)"
  using held_frames_slot [OF frames_inv_run [OF frames_inv_start, of U evs]]
    emit_frame_exact [of rt pd ls f]
  by simp

text \<open>
  The late frame 11 is held when the delta chunk of call 1 is decoded; frame 12 arrives
  for it: frame 11 is closed, frame 12 takes its place and is the only frame held. With
  two listeners registered (call 0 timed out, call 1 waits) and an empty slot, frame 11
  is stored by the first listener and closed by the second.
\<close>

theorem held_frame_closed_when_replaced_witness:
  "microtasks (run exampleUtils [Decode deltaChunk 1 None] lateFrameRuntime) = [] \<and>
   frame_listeners (obj (run exampleUtils [Decode deltaChunk 1 None] lateFrameRuntime)) =
     [\<lparr>promise = 1, byteLength = 7, ctype = delta, time = 1\<rparr>] \<and>
   pendingFrame (obj (run exampleUtils [Decode deltaChunk 1 None] lateFrameRuntime)) = Some 11 \<and>
   closed_frames (run exampleUtils [Decode deltaChunk 1 None] lateFrameRuntime) = [] \<and>
   pendingFrame (obj (step exampleUtils (Frame 12)
     (run exampleUtils [Decode deltaChunk 1 None] lateFrameRuntime))) = Some 12 \<and>
   closed_frames (step exampleUtils (Frame 12)
     (run exampleUtils [Decode deltaChunk 1 None] lateFrameRuntime)) = [11] \<and>
   held_frames (run exampleUtils
     [Decode keyChunk 0 None, Timeout 0, Microtask None, Frame 11, Decode deltaChunk 1 None,
      Frame 12] start) = [12] \<and>
   microtasks (run exampleUtils
     [Decode keyChunk 0 None, Timeout 0, Microtask None, Decode deltaChunk 1 None] start) = [] \<and>
   frame_listeners (obj (run exampleUtils
     [Decode keyChunk 0 None, Timeout 0, Microtask None, Decode deltaChunk 1 None] start)) =
     [\<lparr>promise = 0, byteLength = 19, ctype = key, time = 0\<rparr>,
      \<lparr>promise = 1, byteLength = 7, ctype = delta, time = 1\<rparr>] \<and>
   pendingFrame (obj (step exampleUtils (Frame 11) (run exampleUtils
     [Decode keyChunk 0 None, Timeout 0, Microtask None, Decode deltaChunk 1 None] start))) =
     Some 11 \<and>
   closed_frames (step exampleUtils (Frame 11) (run exampleUtils
     [Decode keyChunk 0 None, Timeout 0, Microtask None, Decode deltaChunk 1 None] start)) = [11]"
proof -
  let ?rt = "run exampleUtils [Decode deltaChunk 1 None] lateFrameRuntime"
  let ?r2 = "run exampleUtils
     [Decode keyChunk 0 None, Timeout 0, Microtask None, Decode deltaChunk 1 None] start"
  have m: "microtasks ?rt = []" by code_simp
  have l: "frame_listeners (obj ?rt) = [\<lparr>promise = 1, byteLength = 7, ctype = delta, time = 1\<rparr>]"
    by code_simp
  have p: "pendingFrame (obj ?rt) = Some 11" by code_simp
  have c: "closed_frames ?rt = []" by code_simp
  have h: "held_frames (run exampleUtils
     [Decode keyChunk 0 None, Timeout 0, Microtask None, Frame 11, Decode deltaChunk 1 None,
      Frame 12] start) = [12]" by code_simp
  from held_frame_closed_when_replaced
         [where rt = ?rt and f = 12 and U = exampleUtils and evs = "[]" and ls = "[]"
            and pd = "\<lparr>promise = 1, byteLength = 7, ctype = delta, time = 1\<rparr>"]
    m l p c
  have a: "pendingFrame (obj (step exampleUtils (Frame 12) ?rt)) = Some 12 \<and>
        closed_frames (step exampleUtils (Frame 12) ?rt) = [11]"
    by simp
  have m2: "microtasks ?r2 = []" by code_simp
  have l2: "frame_listeners (obj ?r2) =
     [\<lparr>promise = 0, byteLength = 19, ctype = key, time = 0\<rparr>,
      \<lparr>promise = 1, byteLength = 7, ctype = delta, time = 1\<rparr>]" by code_simp
  have p2: "pendingFrame (obj ?r2) = None" by code_simp
  have c2: "closed_frames ?r2 = []" by code_simp
  from held_frame_closed_when_replaced
         [where rt = ?r2 and f = 11 and U = exampleUtils and evs = "[]"
            and ls = "[\<lparr>promise = 1, byteLength = 7, ctype = delta, time = 1\<rparr>]"
            and pd = "\<lparr>promise = 0, byteLength = 19, ctype = key, time = 0\<rparr>"]
    m2 l2 p2 c2
  have b: "pendingFrame (obj (step exampleUtils (Frame 11) ?r2)) = Some 11 \<and>
        closed_frames (step exampleUtils (Frame 11) ?r2) = [11]"
    by simp
  from m l p c h a m2 l2 b show ?thesis by simp
qed

subsection \<open>Keyframe gating\<close>

lemma decode_idle:
  "decoding (obj rt) = None \<Longrightarrow>
     decode U thr data t rt =
       decode_body U thr (next_call rt) data t (rt\<lparr>next_call := next_call rt + 1\<rparr>)"
  by (simp add: decode_def Let_def)

lemma decode_busy:
  "decoding (obj rt) = Some p \<Longrightarrow>
     decode U thr data t rt =
       await p (Resume_prepare (next_call rt) data t) (rt\<lparr>next_call := next_call rt + 1\<rparr>)"
  by (simp add: decode_def Let_def)

lemma decode_body_skip:
  "decode_prepare U data (obj rt) = (None, st) \<Longrightarrow>
     decode_body U thr c data t rt = rt\<lparr>obj := st, returned := returned rt @ [(c, None)]\<rparr>"
  by (simp add: decode_body_def)

lemma decode_body_submit:
  "decode_prepare U data (obj rt) = (Some (ty, frame), st) \<Longrightarrow>
     decode_body U thr c data t rt = decode_submit thr c data t ty frame (rt\<lparr>obj := st\<rparr>)"
  by (simp add: decode_body_def)

lemma decode_submit_fields [simp]:
  "returned (decode_submit thr c data t ty frame rt) = returned rt"
  "next_call (decode_submit thr c data t ty frame rt) = next_call rt"
  "submissions (decode_submit thr c data t ty frame rt) =
     submissions rt @
       [\<lparr>sub_call = c, sub_promise = next_promise rt,
         sub_chunk = \<lparr>chunk_type = ty, chunk_data = frame, chunk_timestamp = timestamp (obj rt)\<rparr>,
         sub_accepted = (thr = None)\<rparr>]"
  "decoding (obj (decode_submit thr c data t ty frame rt)) = Some (next_promise rt)"
  "hasKeyframe (obj (decode_submit thr c data t ty frame rt)) = hasKeyframe (obj rt)"
  "naluStreamInfo (obj (decode_submit thr c data t ty frame rt)) = naluStreamInfo (obj rt)"
  "state (decoder (obj (decode_submit thr c data t ty frame rt))) = state (decoder (obj rt))"
  by (simp_all add: decode_submit_def Let_def emit_def VideoDecoder_decode_def split: option.splits)

lemma decode_prepare_hasKeyframe:
  assumes "decode_prepare U data st = (r, st')"
  shows "(hasKeyframe st \<or> r \<noteq> None) = hasKeyframe st'"
proof (cases "hasKeyframe st")
  case False
  from prepare_gate [OF False assms] False show ?thesis by (cases r) auto
next
  case True
  define st1 where "st1 = (if state (decoder st) = closed
                 then (emit warn DecoderClosedCreatingNew st)\<lparr>decoder := new_VideoDecoder\<rparr>
                 else st)"
  have s1: "hasKeyframe st1" using True by (simp add: st1_def emit_def)
  obtain a st2 where a: "getAnnexBFrame U data st1 = (a, st2)" by (cases "getAnnexBFrame U data st1")
  note f2 = getAnnexBFrame_fields [OF a]
  show ?thesis
  proof (cases a)
    case None
    with assms a s1 f2 True show ?thesis
      by (auto simp: decode_prepare_def st1_def [symmetric] emit_def)
  next
    case (Some frame)
    obtain c s where c: "getDecoderConfig U frame st2 = (c, s)" by (cases "getDecoderConfig U frame st2")
    note f3 = getDecoderConfig_fields [OF c]
    from assms a s1 f2 f3 c Some True show ?thesis
      by (auto simp: decode_prepare_def st1_def [symmetric] emit_def Let_def
               split: if_splits option.splits)
  qed
qed

text \<open>
  A call is in flight only after a keyframe was seen: in every reachable state with
  \<open>#hasKeyframe\<close> false, \<open>#decoding\<close> is unset.
\<close>

lemma gate_body:
  assumes "decoding (obj rt) = None \<or> hasKeyframe (obj rt)"
  shows "decoding (obj (decode_body U thr c data t rt)) = None \<or>
         hasKeyframe (obj (decode_body U thr c data t rt))"
proof -
  obtain r st where p: "decode_prepare U data (obj rt) = (r, st)"
    by (cases "decode_prepare U data (obj rt)")
  note f = decode_prepare_fields [OF p]
  note k = decode_prepare_hasKeyframe [OF p]
  show ?thesis
  proof (cases r)
    case None
    with p f k assms show ?thesis by (auto simp: decode_body_skip)
  next
    case (Some a)
    obtain ty frame where a: "a = (ty, frame)" by (cases a)
    with Some p k show ?thesis by (simp add: decode_body_submit)
  qed
qed

lemma gate_step:
  assumes "decoding (obj rt) = None \<or> hasKeyframe (obj rt)"
  shows "decoding (obj (step U e rt)) = None \<or> hasKeyframe (obj (step U e rt))"
proof (cases e)
  case (Decode data t thr)
  show ?thesis
  proof (cases "decoding (obj rt)")
    case None
    have "decoding (obj (rt\<lparr>next_call := next_call rt + 1\<rparr>)) = None \<or>
          hasKeyframe (obj (rt\<lparr>next_call := next_call rt + 1\<rparr>))"
      using assms by simp
    from gate_body [OF this] Decode None show ?thesis by (simp add: decode_idle)
  next
    case (Some p)
    with assms Decode show ?thesis by (simp add: decode_busy)
  qed
next
  case (Microtask thr)
  show ?thesis
  proof (cases "microtasks rt")
    case Nil
    with Microtask assms show ?thesis by simp
  next
    case (Cons k ks)
    have i: "decoding (obj (rt\<lparr>microtasks := ks\<rparr>)) = None \<or>
             hasKeyframe (obj (rt\<lparr>microtasks := ks\<rparr>))"
      using assms by simp
    show ?thesis
    proof (cases k)
      case (Resume_prepare c data t)
      with Microtask Cons gate_body [OF i] show ?thesis by simp
    next
      case (Resume_finish c)
      with Microtask Cons show ?thesis by (simp add: decode_finish_def)
    qed
  qed
next
  case (Frame f)
  have a: "decoding (obj (foldl (\<lambda>r pd. on_frame f pd r) r0 ls)) = decoding (obj r0) \<and>
           hasKeyframe (obj (foldl (\<lambda>r pd. on_frame f pd r) r0 ls)) = hasKeyframe (obj r0)"
    for r0 ls
    by (induction ls arbitrary: r0)
       (simp_all add: on_frame_def Let_def emit_def split: option.splits)
  from Frame assms a show ?thesis by (simp add: emit_frame_def)
next
  case (Timeout p)
  with assms show ?thesis
    by (simp add: on_timeout_def emit_def split: option.splits)
next
  case ResetForSeek
  with assms show ?thesis by (simp add: resetForSeek_def)
next
  case Close
  with assms show ?thesis by (simp add: close_def)
next
  case (EngineError msg)
  with assms show ?thesis by (simp add: emit_def)
next
  case EngineClosed
  with assms show ?thesis by simp
qed

lemma gate_run:
  "decoding (obj rt) = None \<or> hasKeyframe (obj rt) \<Longrightarrow>
     decoding (obj (run U evs rt)) = None \<or> hasKeyframe (obj (run U evs rt))"
  unfolding run_def
proof (induction evs arbitrary: rt)
  case Nil
  then show ?case by simp
next
  case (Cons e evs)
  from Cons.IH [OF gate_step [OF Cons.prems, of U e]] show ?case by simp
qed

lemma gate_shut_is_idle:
  "\<not> hasKeyframe (obj (run U evs start)) \<Longrightarrow> decoding (obj (run U evs start)) = None"
  using gate_run [of start U evs] by (simp add: start_def constructor_def)

text \<open>
  Claim C1. A call of \<open>decode\<close> made while \<open>#hasKeyframe\<close> is false (no call is then in
  flight, by \<open>gate_shut_is_idle\<close>) either is skipped (it returns no frame, nothing is
  passed to the engine and \<open>#hasKeyframe\<close> stays false) or its Annex B frame contains a
  NAL unit of type 5, in which case \<open>#hasKeyframe\<close> becomes true and the chunk is
  passed to the engine as a key chunk. So a chunk without an IDR unit is always skipped,
  and only a chunk with one opens the gate. In particular, on a configured object that
  reads Annex B, the calls delta, delta, key, delta return no frame for the first two,
  and the third is the first chunk passed to the engine.
\<close>

theorem keyframe_gating:
  assumes "\<not> hasKeyframe (obj rt)" and "decoding (obj rt) = None"
  shows
    "(let rt' = step U (Decode data t thr) rt in
        (submissions rt' = submissions rt \<and> \<not> hasKeyframe (obj rt') \<and>
         returned rt' = returned rt @ [(next_call rt, None)])
        \<or>
        (\<exists>frame nalu.
           fst (getAnnexBFrame U data (obj rt)) = Some frame \<and>
           Some nalu \<in> set (nalus U frame) \<and> nal_unit_type U nalu = 5 \<and>
           hasKeyframe (obj rt') \<and>
           map sub_chunk (submissions rt') =
             map sub_chunk (submissions rt) @
               [\<lparr>chunk_type = key, chunk_data = frame, chunk_timestamp = timestamp (obj rt)\<rparr>] \<and>
           returned rt' = returned rt))
     \<and>
     (state (decoder (obj rt)) = configured \<and>
      naluStreamInfo (obj rt) = Some \<lparr>stream_type = annexB, boxSize = n\<rparr> \<and>
      \<not> isKeyFrame U d1 \<and> \<not> isKeyFrame U d2 \<and> isKeyFrame U k \<longrightarrow>
        (let rt4 = run U [Decode d1 t1 x1, Decode d2 t2 x2, Decode k t3 x3, Decode d4 t4 x4] rt in
           returned rt4 = returned rt @ [(next_call rt, None), (next_call rt + 1, None)] \<and>
           map (\<lambda>s. (sub_call s, chunk_type (sub_chunk s))) (submissions rt4) =
             map (\<lambda>s. (sub_call s, chunk_type (sub_chunk s))) (submissions rt) @
               [(next_call rt + 2, key)]))"
proof (intro conjI impI)
  let ?rt1 = "rt\<lparr>next_call := next_call rt + 1\<rparr>"
  obtain r st where p: "decode_prepare U data (obj rt) = (r, st)"
    by (cases "decode_prepare U data (obj rt)")
  note g = prepare_gate [OF assms(1) p]
  note f = decode_prepare_fields [OF p]
  show "let rt' = step U (Decode data t thr) rt in
        (submissions rt' = submissions rt \<and> \<not> hasKeyframe (obj rt') \<and>
         returned rt' = returned rt @ [(next_call rt, None)])
        \<or>
        (\<exists>frame nalu.
           fst (getAnnexBFrame U data (obj rt)) = Some frame \<and>
           Some nalu \<in> set (nalus U frame) \<and> nal_unit_type U nalu = 5 \<and>
           hasKeyframe (obj rt') \<and>
           map sub_chunk (submissions rt') =
             map sub_chunk (submissions rt) @
               [\<lparr>chunk_type = key, chunk_data = frame, chunk_timestamp = timestamp (obj rt)\<rparr>] \<and>
           returned rt' = returned rt)"
  proof (cases r)
    case None
    with p g have "step U (Decode data t thr) rt =
        ?rt1\<lparr>obj := st, returned := returned rt @ [(next_call rt, None)]\<rparr>"
      by (simp add: decode_idle [OF assms(2)] decode_body_skip)
    with None g show ?thesis by (simp add: Let_def)
  next
    case (Some a)
    obtain ty frame where a: "a = (ty, frame)" by (cases a)
    from Some a g have k: "hasKeyframe st" "ty = key" "isKeyFrame U frame"
      "fst (getAnnexBFrame U data (obj rt)) = Some frame" by simp_all
    from k(3) obtain nalu where n: "Some nalu \<in> set (nalus U frame)" "nal_unit_type U nalu = 5"
      by (auto simp: isKeyFrame_def anyIDR_iff NaluType_IDR_def)
    from p Some a have "step U (Decode data t thr) rt =
        decode_submit thr (next_call rt) data t ty frame (?rt1\<lparr>obj := st\<rparr>)"
      by (simp add: decode_idle [OF assms(2)] decode_body_submit)
    with k n f show ?thesis by (auto simp: Let_def)
  qed
next
  assume h: "state (decoder (obj rt)) = configured \<and>
      naluStreamInfo (obj rt) = Some \<lparr>stream_type = annexB, boxSize = n\<rparr> \<and>
      \<not> isKeyFrame U d1 \<and> \<not> isKeyFrame U d2 \<and> isKeyFrame U k"
  define c where "c = next_call rt"
  define r1 where
    "r1 = rt\<lparr>next_call := c + 1, obj := emit debug SkippingNonKeyframe (obj rt),
              returned := returned rt @ [(c, None)]\<rparr>"
  define r2 where
    "r2 = r1\<lparr>next_call := c + 2, obj := emit debug SkippingNonKeyframe (obj r1),
              returned := returned r1 @ [(c + 1, None)]\<rparr>"
  define r3 where
    "r3 = decode_submit x3 (c + 2) k t3 key k
            (r2\<lparr>next_call := c + 3, obj := (obj r2)\<lparr>hasKeyframe := True\<rparr>\<rparr>)"
  have p1: "decode_prepare U d1 (obj rt) = (None, emit debug SkippingNonKeyframe (obj rt))"
    using h assms by (simp add: prepare_configured)
  have 1: "step U (Decode d1 t1 x1) rt = r1"
    using p1 decode_idle [OF assms(2), of U x1 d1 t1]
    by (simp add: decode_body_skip r1_def c_def)
  have i1: "decoding (obj r1) = None" "\<not> hasKeyframe (obj r1)"
    "state (decoder (obj r1)) = configured"
    "naluStreamInfo (obj r1) = Some \<lparr>stream_type = annexB, boxSize = n\<rparr>"
    "next_call r1 = c + 1"
    using h assms by (simp_all add: emit_def r1_def)
  have p2: "decode_prepare U d2 (obj r1) = (None, emit debug SkippingNonKeyframe (obj r1))"
    using h i1 by (simp add: prepare_configured)
  have 2: "step U (Decode d2 t2 x2) r1 = r2"
    using p2 decode_idle [OF i1(1), of U x2 d2 t2] i1(5)
    by (simp add: decode_body_skip r2_def)
  have i2: "decoding (obj r2) = None" "\<not> hasKeyframe (obj r2)"
    "state (decoder (obj r2)) = configured"
    "naluStreamInfo (obj r2) = Some \<lparr>stream_type = annexB, boxSize = n\<rparr>"
    "next_call r2 = c + 2"
    using i1 by (simp_all add: emit_def r2_def)
  have p3: "decode_prepare U k (obj r2) = (Some (key, k), (obj r2)\<lparr>hasKeyframe := True\<rparr>)"
    using h i2 by (simp add: prepare_configured)
  have 3: "step U (Decode k t3 x3) r2 = r3"
    using p3 decode_idle [OF i2(1), of U x3 k t3] i2(5)
    by (simp add: decode_body_submit r3_def numeral_3_eq_3)
  have i3: "decoding (obj r3) = Some (next_promise r2)" by (simp add: r3_def)
  have 4: "step U (Decode d4 t4 x4) r3 =
      await (next_promise r2) (Resume_prepare (next_call r3) d4 t4) (r3\<lparr>next_call := next_call r3 + 1\<rparr>)"
    using decode_busy [OF i3, of U x4 d4 t4] by simp
  have r: "run U [Decode d1 t1 x1, Decode d2 t2 x2, Decode k t3 x3, Decode d4 t4 x4] rt =
      step U (Decode d4 t4 x4) r3"
    using 1 2 3 by (simp add: run_def)
  have "returned r3 = returned rt @ [(c, None), (c + 1, None)]"
    by (simp add: r3_def r2_def r1_def)
  moreover have "map (\<lambda>s. (sub_call s, chunk_type (sub_chunk s))) (submissions r3) =
       map (\<lambda>s. (sub_call s, chunk_type (sub_chunk s))) (submissions rt) @ [(c + 2, key)]"
    by (simp add: r3_def r2_def r1_def)
  ultimately
  show "let rt4 = run U [Decode d1 t1 x1, Decode d2 t2 x2, Decode k t3 x3, Decode d4 t4 x4] rt in
           returned rt4 = returned rt @ [(next_call rt, None), (next_call rt + 1, None)] \<and>
           map (\<lambda>s. (sub_call s, chunk_type (sub_chunk s))) (submissions rt4) =
             map (\<lambda>s. (sub_call s, chunk_type (sub_chunk s))) (submissions rt) @
               [(next_call rt + 2, key)]"
    unfolding r 4 by (simp add: Let_def c_def)
qed

text \<open>
  The hypotheses of the theorem hold of the configured example object with the
  chunks delta, delta, key, delta: the first two calls (calls 1 and 2; call 0 configured
  the object) return no frame and the key chunk of call 3 is the only submission.
\<close>

theorem keyframe_gating_witness:
  "\<not> hasKeyframe (obj configuredRuntime) \<and> decoding (obj configuredRuntime) = None \<and>
   state (decoder (obj configuredRuntime)) = configured \<and>
   naluStreamInfo (obj configuredRuntime) = Some \<lparr>stream_type = annexB, boxSize = 4\<rparr> \<and>
   \<not> isKeyFrame exampleUtils deltaChunk \<and> isKeyFrame exampleUtils keyChunk \<and>
   returned (run exampleUtils
      [Decode deltaChunk 1 None, Decode deltaChunk 2 None, Decode keyChunk 3 None,
       Decode deltaChunk 4 None] configuredRuntime) = [(0, None), (1, None), (2, None)] \<and>
   map (\<lambda>s. (sub_call s, chunk_type (sub_chunk s)))
     (submissions (run exampleUtils
      [Decode deltaChunk 1 None, Decode deltaChunk 2 None, Decode keyChunk 3 None,
       Decode deltaChunk 4 None] configuredRuntime)) = [(3, key)]"
proof -
  have h1: "\<not> hasKeyframe (obj configuredRuntime)" by code_simp
  have h2: "decoding (obj configuredRuntime) = None" by code_simp
  have h3: "state (decoder (obj configuredRuntime)) = configured" by code_simp
  have h4: "naluStreamInfo (obj configuredRuntime) = Some \<lparr>stream_type = annexB, boxSize = 4\<rparr>"
    by code_simp
  have h5: "\<not> isKeyFrame exampleUtils deltaChunk" by code_simp
  have h6: "isKeyFrame exampleUtils keyChunk" by code_simp
  have h7: "returned configuredRuntime = [(0, None)]" "next_call configuredRuntime = 1"
    "submissions configuredRuntime = []" by code_simp+
  from keyframe_gating [OF h1 h2, where U = exampleUtils and n = 4 and ?d1.0 = deltaChunk
      and ?d2.0 = deltaChunk and k = keyChunk and ?t1.0 = 1 and ?x1.0 = None and ?t2.0 = 2
      and ?x2.0 = None and ?t3.0 = 3 and ?x3.0 = None and ?d4.0 = deltaChunk and ?t4.0 = 4
      and ?x4.0 = None]
    h3 h4 h5 h6
  have "let rt4 = run exampleUtils
      [Decode deltaChunk 1 None, Decode deltaChunk 2 None, Decode keyChunk 3 None,
       Decode deltaChunk 4 None] configuredRuntime in
           returned rt4 = returned configuredRuntime @
              [(next_call configuredRuntime, None), (next_call configuredRuntime + 1, None)] \<and>
           map (\<lambda>s. (sub_call s, chunk_type (sub_chunk s))) (submissions rt4) =
             map (\<lambda>s. (sub_call s, chunk_type (sub_chunk s))) (submissions configuredRuntime) @
               [(next_call configuredRuntime + 2, key)]"
    by blast
  with h1 h2 h3 h4 h5 h6 h7 show ?thesis by (simp add: Let_def)
qed

subsection \<open>Seeking\<close>




subsection \<open>Closing\<close>

text \<open>
  Claim C5 at the failing input: a key chunk whose decode timed out, its frame 11
  arriving late, then \<open>close()\<close>. The engine is closed and both caches are cleared, but
  the frame is still in \<open>#pendingFrame\<close> and was never closed.
\<close>

theorem close_leaves_pending_frame:
  "pendingFrame (obj lateFrameRuntime) = Some 11 \<and>
   state (decoder (obj (step exampleUtils Close lateFrameRuntime))) = closed \<and>
   naluStreamInfo (obj (step exampleUtils Close lateFrameRuntime)) = None \<and>
   videoDecoderConfig (obj (step exampleUtils Close lateFrameRuntime)) = None \<and>
   pendingFrame (obj (step exampleUtils Close lateFrameRuntime)) = Some 11 \<and>
   closed_frames (step exampleUtils Close lateFrameRuntime) = []"
  by code_simp

subsection \<open>The decoder configuration\<close>

text \<open>
  Claim C6 at the failing input: a chunk whose first SPS unit is cut short and whose
  second SPS unit is the one that parses to 320 by 240. \<open>_getDecoderConfig\<close> stops at
  the first, emits the error and returns nothing; the call leaves the engine
  unconfigured.
\<close>

theorem getDecoderConfig_stops_at_invalid_SPS:
  "fst (getDecoderConfig exampleUtils (annexBChunk [spsNalu, idrNalu]) constructor) =
     Some \<lparr>codec = ''avc1.42001e'', codedHeight = 240, codedWidth = 320,
           optimizeForLatency = True\<rparr> \<and>
   newSPS exampleUtils cutSpsNalu = Inl ''cannot parse SPS'' \<and>
   getDecoderConfig exampleUtils (annexBChunk [cutSpsNalu, spsNalu, idrNalu]) constructor =
     (None, emit error (InvalidSPS ''cannot parse SPS'') constructor) \<and>
   state (decoder (obj (run exampleUtils
      [Decode (annexBChunk [cutSpsNalu, spsNalu, idrNalu]) 0 None] start))) = unconfigured"
  by code_simp

subsection \<open>Single flight\<close>

text \<open>
  Claim C3 at the failing input: three calls of \<open>decode\<close> with key chunks, none awaited.
  After the three calls only the first chunk is in flight. When its frame arrives, the
  first call returns and the two waiting calls resume one after the other; the third
  does not look at \<open>#decoding\<close> again, so the chunks of calls 1 and 2 are both in flight.
\<close>

theorem three_calls_two_in_flight:
  "map sub_call (in_flight (run exampleUtils
      [Decode keyChunk 0 None, Decode keyChunk 1 None, Decode keyChunk 2 None] start)) = [0] \<and>
   map sub_call (in_flight (run exampleUtils
      [Decode keyChunk 0 None, Decode keyChunk 1 None, Decode keyChunk 2 None,
       Frame 11, Microtask None, Microtask None, Microtask None] start)) = [1, 2]"
  by code_simp

subsection \<open>A closed engine\<close>













subsection \<open>Timeout\<close>



































subsection \<open>What a returning call leaves behind\<close>

text \<open>
  Claim C10, as stated, fails: after call 0 returned and while no call is in progress,
  the object holds the late frame 11; and after \<open>close()\<close> a call with the delta chunk
  returns early, without a frame, and the frame is still held.
\<close>

theorem early_return_keeps_pending_frame:
  "returned lateFrameRuntime = [(0, None)] \<and>
   microtasks lateFrameRuntime = [] \<and> awaiting lateFrameRuntime = [] \<and>
   pendingFrame (obj lateFrameRuntime) = Some 11 \<and>
   returned (run exampleUtils [Close, Decode deltaChunk 1 None] lateFrameRuntime) =
     [(0, None), (1, None)] \<and>
   pendingFrame (obj (run exampleUtils [Close, Decode deltaChunk 1 None] lateFrameRuntime)) =
     Some 11"
  by code_simp

text \<open>
  Claim C10, amended. A call that returns on the final path (lines 373 to 377, after the
  wait on its submission ended by a frame or by the timeout) returns the content of
  \<open>#pendingFrame\<close> and leaves \<open>#pendingFrame\<close> and \<open>#decoding\<close> cleared. A call that
  returns before submitting returns no frame and leaves both as they were.
\<close>

theorem decode_return_clears_on_final_path:
  "(microtasks rt = Resume_finish c # ks \<longrightarrow>
      returned (step U (Microtask thr) rt) = returned rt @ [(c, pendingFrame (obj rt))] \<and>
      pendingFrame (obj (step U (Microtask thr) rt)) = None \<and>
      decoding (obj (step U (Microtask thr) rt)) = None) \<and>
   (fst (decode_prepare U data (obj rt)) = None \<longrightarrow>
      returned (decode_body U thr c data t rt) = returned rt @ [(c, None)] \<and>
      pendingFrame (obj (decode_body U thr c data t rt)) = pendingFrame (obj rt) \<and>
      decoding (obj (decode_body U thr c data t rt)) = decoding (obj rt))"
proof (intro conjI impI)
  assume "fst (decode_prepare U data (obj rt)) = None"
  then obtain st where p: "decode_prepare U data (obj rt) = (None, st)"
    by (cases "decode_prepare U data (obj rt)") auto
  note f = decode_prepare_fields [OF p]
  show "returned (decode_body U thr c data t rt) = returned rt @ [(c, None)]"
    and "pendingFrame (obj (decode_body U thr c data t rt)) = pendingFrame (obj rt)"
    and "decoding (obj (decode_body U thr c data t rt)) = decoding (obj rt)"
    using f by (simp_all add: decode_body_skip [OF p])
qed (simp_all add: decode_finish_def)

text \<open>
  Both hypotheses occur: a call whose frame arrived returns it and clears the slot; the
  early return after \<open>close()\<close> leaves the late frame 11 in the slot.
\<close>

theorem decode_return_clears_on_final_path_witness:
  "microtasks (run exampleUtils [Decode keyChunk 0 None, Frame 11] start) = [Resume_finish 0] \<and>
   returned (run exampleUtils [Decode keyChunk 0 None, Frame 11, Microtask None] start) =
     [(0, Some 11)] \<and>
   pendingFrame (obj (run exampleUtils [Decode keyChunk 0 None, Frame 11, Microtask None] start)) = None \<and>
   fst (decode_prepare exampleUtils deltaChunk (obj (step exampleUtils Close lateFrameRuntime))) = None \<and>
   pendingFrame (obj (decode_body exampleUtils None 1 deltaChunk 1
      (step exampleUtils Close lateFrameRuntime))) = Some 11"
proof -
  let ?rt = "run exampleUtils [Decode keyChunk 0 None, Frame 11] start"
  have h1: "microtasks ?rt = [Resume_finish 0]" by code_simp
  have e1: "returned ?rt = []" "pendingFrame (obj ?rt) = Some 11" by code_simp+
  have r: "run exampleUtils [Decode keyChunk 0 None, Frame 11, Microtask None] start =
      step exampleUtils (Microtask None) ?rt" by (simp add: run_def)
  have h2: "fst (decode_prepare exampleUtils deltaChunk (obj (step exampleUtils Close lateFrameRuntime))) = None"
    by code_simp
  have e2: "pendingFrame (obj (step exampleUtils Close lateFrameRuntime)) = Some 11" by code_simp
  from decode_return_clears_on_final_path
         [where rt = ?rt and c = 0 and ks = "[]" and U = exampleUtils and thr = None]
    h1 e1
  have a: "returned (step exampleUtils (Microtask None) ?rt) = [(0, Some 11)] \<and>
           pendingFrame (obj (step exampleUtils (Microtask None) ?rt)) = None"
    by simp
  from decode_return_clears_on_final_path
         [where rt = "step exampleUtils Close lateFrameRuntime" and c = 1 and U = exampleUtils
            and thr = None and data = deltaChunk and t = 1]
    h2 e2
  have b: "pendingFrame (obj (decode_body exampleUtils None 1 deltaChunk 1
      (step exampleUtils Close lateFrameRuntime))) = Some 11"
    by simp
  from a b h1 h2 show ?thesis unfolding r by simp
qed

end
